theory Spec2Isabelle
  imports Complex_Main "HOL-Library.AList"
begin

section \<open>Protocol data (lib/core/types.ts)\<close>

text \<open>
  A JavaScript \<^verbatim>\<open>number\<close> is modelled as an ideal \<^typ>\<open>real\<close>: the arithmetic of the
  backoff formula is the exact one, without the rounding of IEEE doubles. A JSON object is
  an association list of its properties.
\<close>

type_synonym number = real

datatype JsonValue =
    JNull
  | JBool bool
  | JNumber number
  | JString string
  | JArray "JsonValue list"
  | JObject "(string \<times> JsonValue) list"

text \<open>The \<^verbatim>\<open>error\<close> member of a message: \<^verbatim>\<open>{ message: string; code?: number; data?: JsonValue }\<close>.\<close>

record McpErrorInfo =
  err_message :: string
  err_code :: "number option"
  err_data :: "JsonValue option"

text \<open>
  \<^verbatim>\<open>McpMessage\<close>: every member is optional, an absent member (\<^verbatim>\<open>undefined\<close>) is \<open>None\<close>.
  The members are \<^verbatim>\<open>id\<close>, \<^verbatim>\<open>method\<close>, \<^verbatim>\<open>params\<close>, \<^verbatim>\<open>result\<close> and \<^verbatim>\<open>error\<close>; the
  prefix keeps them apart from the constants of the library and from the members of the
  other records.
\<close>

record McpMessage =
  msg_id :: "string option"
  msg_method :: "string option"
  msg_params :: "JsonValue option"
  msg_result :: "JsonValue option"
  msg_error :: "McpErrorInfo option"

datatype McpStatus = Disconnected | Connecting | Connected | Reconnecting | ErrorStatus

datatype McpLogLevel = Info | Warn | ErrorLevel | Debug

record McpLog =
  log_level :: McpLogLevel
  log_message :: string
  log_time :: nat
  log_data :: "JsonValue option"

text \<open>A JavaScript \<^verbatim>\<open>Error\<close> object, by its message; a thrown value is an Error or not.\<close>

datatype Error = Error (message: string)

datatype Thrown = ThrownError Error | ThrownOther JsonValue

text \<open>The template literal \<^verbatim>\<open>`status ${status}`\<close> prints the string of the union type.\<close>

fun status_text :: "McpStatus \<Rightarrow> string" where
  "status_text Disconnected = ''disconnected''"
| "status_text Connecting = ''connecting''"
| "status_text Connected = ''connected''"
| "status_text Reconnecting = ''reconnecting''"
| "status_text ErrorStatus = ''error''"

text \<open>An object literal leaves out a member that is \<^verbatim>\<open>undefined\<close> when it is serialised.\<close>

definition json_member :: "string \<Rightarrow> JsonValue option \<Rightarrow> (string \<times> JsonValue) list" where
  "json_member k v = (case v of None \<Rightarrow> [] | Some x \<Rightarrow> [(k, x)])"

definition json_of_error :: "McpErrorInfo \<Rightarrow> JsonValue" where
  "json_of_error e =
     JObject ([(''message'', JString (err_message e))]
       @ json_member ''code'' (map_option JNumber (err_code e))
       @ json_member ''data'' (err_data e))"

text \<open>The cast \<^verbatim>\<open>message as unknown as JsonValue\<close>: the message object itself, as JSON.\<close>

definition json_of_message :: "McpMessage \<Rightarrow> JsonValue" where
  "json_of_message m =
     JObject (json_member ''id'' (map_option JString (msg_id m))
       @ json_member ''method'' (map_option JString (msg_method m))
       @ json_member ''params'' (msg_params m)
       @ json_member ''result'' (msg_result m)
       @ json_member ''error'' (map_option json_of_error (msg_error m)))"

section \<open>Printing numbers\<close>

definition digit_char :: "nat \<Rightarrow> char" where
  "digit_char d = ''0123456789abcdefghijklmnopqrstuvwxyz'' ! d"

text \<open>\<^verbatim>\<open>n.toString(radix)\<close> for a non-negative integer \<open>n\<close> and a radix from 2 to 36.\<close>

function toString_radix :: "nat \<Rightarrow> nat \<Rightarrow> string" where
  "toString_radix r n =
     (if r < 2 \<or> n < r then [digit_char n]
      else toString_radix r (n div r) @ [digit_char (n mod r)])"
  by pat_completeness auto

termination
  by (relation "measure snd") auto

declare toString_radix.simps [simp del]

text \<open>An integer inside a template literal: \<^verbatim>\<open>`${n}`\<close>, in decimal, with its sign.\<close>

definition show_int :: "int \<Rightarrow> string" where
  "show_int n = (if n < 0 then ''-'' @ toString_radix 10 (nat (- n)) else toString_radix 10 (nat n))"

section \<open>The protocol client (lib/core/client.ts)\<close>

subsection \<open>State\<close>

text \<open>
  A pending request holds the two settling functions of the promise that \<^verbatim>\<open>request\<close>
  created and the handle of its timer. \<open>resolve\<close> and \<open>reject\<close> are references to the
  promise they settle.
\<close>

record PendingRequest =
  resolve :: nat
  reject :: nat
  timeoutId :: nat

text \<open>
  The callback that \<^verbatim>\<open>request\<close> hands to \<^verbatim>\<open>setTimeout\<close> closes over the id, the method and
  \<open>reject\<close>; \<open>timer_delay\<close> is the delay the timer was set with.
\<close>

record TimeoutCallback =
  timer_delay :: number
  timer_id :: string
  timer_method :: string
  timer_reject :: nat

datatype Settlement = Fulfilled JsonValue | Rejected Error

text \<open>What the client hands to the subscribers of its four emitters and to the logger option.\<close>

datatype ClientEmission =
    StatusEmitted McpStatus
  | MessageEmitted McpMessage
  | ErrorEmitted Error
  | LogEmitted McpLog
  | LoggerCalled McpLog

text \<open>The subscriptions of the client at its transport, one for each unsubscribe function.\<close>

datatype Subscription = OnMessage | OnStatus | OnError | OnLog

text \<open>
  The fields of \<^verbatim>\<open>McpClient\<close>, and the part of the JavaScript runtime its methods act on:
  \<^item> \<open>pending\<close> is the \<^verbatim>\<open>Map\<close> of pending requests, in insertion order;
  \<^item> \<open>promises\<close> gives the settlement of each promise created by \<^verbatim>\<open>request\<close>
    (\<open>None\<close> while it is pending), \<open>timers\<close> the timers that are set and have neither
    fired nor been cleared;
  \<^item> \<open>emitted\<close> is everything emitted so far, oldest first.
  The field \<^verbatim>\<open>status\<close> is \<open>clientStatus\<close> here.
\<close>

record McpClient =
  requestTimeoutMs :: number
  pending :: "(string \<times> PendingRequest) list"
  clientStatus :: McpStatus
  unsubs :: "Subscription list"
  emitted :: "ClientEmission list"
  promises :: "nat \<rightharpoonup> Settlement"
  timers :: "nat \<rightharpoonup> TimeoutCallback"
  nextPromise :: nat
  nextTimer :: nat

subsection \<open>The emitter\<close>

text \<open>
  Modelled from the spec: the class \<^verbatim>\<open>Emitter\<close> (lib/core/emitter.ts) is not among the
  sources. By the specification \<^verbatim>\<open>emit\<close> hands the payload to every handler registered at
  that moment and buffers nothing. The handlers of the client's own emitters belong to
  the caller; the model records each payload in \<open>emitted\<close> and takes the handlers to
  return normally.
\<close>

definition emit :: "ClientEmission \<Rightarrow> McpClient \<Rightarrow> McpClient" where
  "emit x c = c\<lparr>emitted := emitted c @ [x]\<rparr>"

subsection \<open>Private methods\<close>

text \<open>
  \<^verbatim>\<open>log\<close>: the entry goes to the log emitter and to the logger option. \<open>now\<close> is the
  value of \<^verbatim>\<open>Date.now()\<close>.
\<close>

definition clientLog :: "nat \<Rightarrow> McpLogLevel \<Rightarrow> string \<Rightarrow> JsonValue option \<Rightarrow> McpClient \<Rightarrow> McpClient" where
  "clientLog now lvl msg d c =
     (let l = \<lparr>log_level = lvl, log_message = msg, log_time = now, log_data = d\<rparr>
      in emit (LoggerCalled l) (emit (LogEmitted l) c))"

definition setStatus :: "nat \<Rightarrow> McpStatus \<Rightarrow> McpClient \<Rightarrow> McpClient" where
  "setStatus now st c =
     clientLog now Info (''status '' @ status_text st) None
       (emit (StatusEmitted st) (c\<lparr>clientStatus := st\<rparr>))"

definition handleError :: "nat \<Rightarrow> Error \<Rightarrow> McpClient \<Rightarrow> McpClient" where
  "handleError now e c = clientLog now ErrorLevel (message e) None (emit (ErrorEmitted e) c)"

text \<open>
  \<^verbatim>\<open>generateId\<close>: \<open>now\<close> is \<^verbatim>\<open>Date.now()\<close> and \<open>rnd\<close> the string
  \<^verbatim>\<open>Math.random().toString(36)\<close>, of which \<^verbatim>\<open>slice(2, 10)\<close> keeps the characters 2 to 9.
\<close>

definition generateId :: "nat \<Rightarrow> string \<Rightarrow> string" where
  "generateId now rnd = toString_radix 36 now @ ''-'' @ take 8 (drop 2 rnd)"

text \<open>Settling a promise: the first settlement stays, a later one does nothing.\<close>

definition settle :: "nat \<Rightarrow> Settlement \<Rightarrow> McpClient \<Rightarrow> McpClient" where
  "settle p v c = (case promises c p of None \<Rightarrow> c\<lparr>promises := (promises c)(p \<mapsto> v)\<rparr> | Some _ \<Rightarrow> c)"

definition clearTimeout :: "nat \<Rightarrow> McpClient \<Rightarrow> McpClient" where
  "clearTimeout t c = c\<lparr>timers := (timers c)(t := None)\<rparr>"

definition pending_delete :: "string \<Rightarrow> McpClient \<Rightarrow> McpClient" where
  "pending_delete i c = c\<lparr>pending := AList.delete i (pending c)\<rparr>"

text \<open>
  \<^verbatim>\<open>request\<close>, up to its \<^verbatim>\<open>await\<close>: the id, the promise with its timer, the entry of the
  map and the log entry. The result is the message handed to \<^verbatim>\<open>transport.send\<close>, the
  promise, and the client.
\<close>

definition request ::
  "nat \<Rightarrow> string \<Rightarrow> string \<Rightarrow> JsonValue option \<Rightarrow> McpClient \<Rightarrow> McpMessage \<times> nat \<times> McpClient" where
  "request now rnd mth params c =
     (let i = generateId now rnd;
          msg = \<lparr>msg_id = Some i, msg_method = Some mth, msg_params = params,
                 msg_result = None, msg_error = None\<rparr>;
          p = nextPromise c;
          t = nextTimer c;
          c1 = c\<lparr>nextPromise := p + 1, nextTimer := t + 1,
                 timers := (timers c)(t \<mapsto> \<lparr>timer_delay = requestTimeoutMs c, timer_id = i,
                                             timer_method = mth, timer_reject = p\<rparr>)\<rparr>;
          c2 = c1\<lparr>pending := AList.update i \<lparr>resolve = p, reject = p, timeoutId = t\<rparr> (pending c1)\<rparr>;
          c3 = clientLog now Debug (''send '' @ mth) (Some (JObject ((''id'', JString i) # json_member ''params'' params))) c2
      in (msg, p, c3))"

text \<open>
  The callback of the timer of a request. The runtime calls it once, unless the timer was
  cleared before: a handle that is not set any more does nothing.
\<close>

definition timeoutFired :: "nat \<Rightarrow> McpClient \<Rightarrow> McpClient" where
  "timeoutFired t c =
     (case timers c t of
        None \<Rightarrow> c
      | Some cb \<Rightarrow>
          settle (timer_reject cb) (Rejected (Error (''Request timed out: '' @ timer_method cb)))
            (pending_delete (timer_id cb) (clearTimeout t c)))"

text \<open>
  \<^verbatim>\<open>handleMessage\<close>. An id is truthy when it is present and not the empty string;
  an \<^verbatim>\<open>error\<close> member is an object and so truthy when present;
  \<^verbatim>\<open>message.result ?? null\<close> is \<^verbatim>\<open>null\<close> for an absent result.
\<close>

definition handleMessage :: "nat \<Rightarrow> McpMessage \<Rightarrow> McpClient \<Rightarrow> McpClient" where
  "handleMessage now m c =
     (let c1 = emit (MessageEmitted m) c;
          unmatched = clientLog now Info ''message'' (Some (json_of_message m)) c1
      in case msg_id m of
           None \<Rightarrow> unmatched
         | Some i \<Rightarrow>
             if i \<noteq> [] \<and> map_of (pending c1) i \<noteq> None then
               (case map_of (pending c1) i of
                  None \<Rightarrow> c1
                | Some p \<Rightarrow>
                    let c2 = pending_delete i (clearTimeout (timeoutId p) c1)
                    in (case msg_error m of
                          Some e \<Rightarrow> settle (reject p) (Rejected (Error (err_message e))) c2
                        | None \<Rightarrow>
                            settle (resolve p)
                              (Fulfilled (case msg_result m of None \<Rightarrow> JNull | Some r \<Rightarrow> r)) c2))
             else unmatched)"

text \<open>
  \<^verbatim>\<open>rejectAllPending\<close>: the loop over the entries of the map. Deleting the entry at hand
  does not disturb the iteration of a \<^verbatim>\<open>Map\<close>, so the loop visits every entry once.
\<close>

fun rejectEntries :: "Error \<Rightarrow> (string \<times> PendingRequest) list \<Rightarrow> McpClient \<Rightarrow> McpClient" where
  "rejectEntries e [] c = c"
| "rejectEntries e ((i, p) # rest) c =
     rejectEntries e rest (pending_delete i (settle (reject p) (Rejected e) (clearTimeout (timeoutId p) c)))"

definition rejectAllPending :: "Error \<Rightarrow> McpClient \<Rightarrow> McpClient" where
  "rejectAllPending e c = rejectEntries e (pending c) c"

text \<open>
  The async function \<^verbatim>\<open>request\<close> ends with \<^verbatim>\<open>await this.transport.send(message); return promise\<close>:
  once the send has completed, the promise of the call is rejected with the error of the
  send when it failed, and follows the promise of the pending entry when it did not.
\<close>

definition request_result :: "Error + unit \<Rightarrow> nat \<Rightarrow> McpClient \<Rightarrow> Settlement option" where
  "request_result sent p c = (case sent of Inl e \<Rightarrow> Some (Rejected e) | Inr _ \<Rightarrow> promises c p)"

subsection \<open>Public methods that send a request\<close>

text \<open>\<^verbatim>\<open>(result as McpTool[]) ?? []\<close>: an empty array for \<^verbatim>\<open>null\<close>, the result itself otherwise.\<close>

definition or_empty_array :: "Settlement option \<Rightarrow> Settlement option" where
  "or_empty_array r = (case r of Some (Fulfilled JNull) \<Rightarrow> Some (Fulfilled (JArray [])) | _ \<Rightarrow> r)"

definition listTools :: "nat \<Rightarrow> string \<Rightarrow> McpClient \<Rightarrow> McpMessage \<times> nat \<times> McpClient" where
  "listTools now rnd c = request now rnd ''mcp.listTools'' None c"

definition listTools_result :: "Error + unit \<Rightarrow> nat \<Rightarrow> McpClient \<Rightarrow> Settlement option" where
  "listTools_result sent p c = or_empty_array (request_result sent p c)"

definition listResources :: "nat \<Rightarrow> string \<Rightarrow> McpClient \<Rightarrow> McpMessage \<times> nat \<times> McpClient" where
  "listResources now rnd c = request now rnd ''mcp.listResources'' None c"

definition listResources_result :: "Error + unit \<Rightarrow> nat \<Rightarrow> McpClient \<Rightarrow> Settlement option" where
  "listResources_result sent p c = or_empty_array (request_result sent p c)"

text \<open>
  \<^verbatim>\<open>callTool\<close>: the parameters are the object \<^verbatim>\<open>{ name, args }\<close>; the result of the request is
  returned as it is (the cast to \<^verbatim>\<open>McpToolResult\<close> does nothing at run time).
\<close>

definition callTool ::
  "nat \<Rightarrow> string \<Rightarrow> string \<Rightarrow> JsonValue option \<Rightarrow> McpClient \<Rightarrow> McpMessage \<times> nat \<times> McpClient" where
  "callTool now rnd name args c =
     request now rnd ''mcp.callTool'' (Some (JObject ((''name'', JString name) # json_member ''args'' args))) c"


section \<open>The streaming transport (lib/transports/sse.ts)\<close>

record BackoffConfig =
  baseDelayMs :: number
  maxDelayMs :: number
  jitter :: number

definition defaultBackoff :: BackoffConfig where
  "defaultBackoff = \<lparr>baseDelayMs = 500, maxDelayMs = 15000, jitter = 1 / 4\<rparr>"

text \<open>\<^verbatim>\<open>Partial<BackoffConfig>\<close>, the option \<^verbatim>\<open>reconnect\<close> of the constructor.\<close>

record PartialBackoffConfig =
  opt_baseDelayMs :: "number option"
  opt_maxDelayMs :: "number option"
  opt_jitter :: "number option"

text \<open>What the transport hands to the subscribers of its four emitters.\<close>

datatype TransportEmission =
    MessageEvent McpMessage
  | StatusEvent McpStatus
  | ErrorEvent Error
  | LogEvent McpLog

text \<open>
  The fields of \<^verbatim>\<open>SseTransport\<close>, and the part of the runtime its methods act on:
  \<^item> \<open>eventSource\<close> is the number of the \<^verbatim>\<open>EventSource\<close> object at hand (they are numbered
    in the order of their construction), \<open>sourcesClosed\<close> the objects that \<^verbatim>\<open>close()\<close> was
    called on;
  \<^item> \<open>timeouts\<close> lists the delay of every call of \<^verbatim>\<open>setTimeout\<close>, in the order of the calls;
    the handle of a timer is its position in that list, and \<open>live\<close> holds the handles of
    the timers that have neither fired nor been cleared. A handle is truthy.
\<close>

record SseTransport =
  sseUrl :: string
  postUrl :: string
  status :: McpStatus
  manualClose :: bool
  retryAttempt :: nat
  reconnectConfig :: BackoffConfig
  eventSource :: "nat option"
  reconnectTimer :: "nat option"
  sourcesOpened :: nat
  sourcesClosed :: "nat list"
  timeouts :: "int list"
  live :: "nat set"

text \<open>The constructor: \<^verbatim>\<open>{ ...defaultBackoff, ...(options.reconnect ?? {}) }\<close> and the two URLs.\<close>

definition mergeBackoff :: "PartialBackoffConfig option \<Rightarrow> BackoffConfig" where
  "mergeBackoff r =
     (case r of
        None \<Rightarrow> defaultBackoff
      | Some cfg \<Rightarrow>
          \<lparr>baseDelayMs = (case opt_baseDelayMs cfg of None \<Rightarrow> baseDelayMs defaultBackoff | Some x \<Rightarrow> x),
           maxDelayMs = (case opt_maxDelayMs cfg of None \<Rightarrow> maxDelayMs defaultBackoff | Some x \<Rightarrow> x),
           jitter = (case opt_jitter cfg of None \<Rightarrow> jitter defaultBackoff | Some x \<Rightarrow> x)\<rparr>)"

definition newSseTransport ::
  "string option \<Rightarrow> string option \<Rightarrow> PartialBackoffConfig option \<Rightarrow> SseTransport" where
  "newSseTransport sse post r =
     \<lparr>sseUrl = (case sse of None \<Rightarrow> ''/mcp/sse'' | Some u \<Rightarrow> u),
      postUrl = (case post of None \<Rightarrow> ''/mcp'' | Some u \<Rightarrow> u),
      status = Disconnected, manualClose = False, retryAttempt = 0,
      reconnectConfig = mergeBackoff r, eventSource = None, reconnectTimer = None,
      sourcesOpened = 0, sourcesClosed = [], timeouts = [], live = {}\<rparr>"

subsection \<open>Private methods\<close>

text \<open>
  Each method gives what the transport emits, in order, and the transport afterwards.
  The handlers that subscribers register are taken to return normally (see the section on
  the emitter); what the client's handlers do with an emission is \<open>deliver\<close> below.
\<close>

definition sseSetStatus :: "McpStatus \<Rightarrow> SseTransport \<Rightarrow> TransportEmission list \<times> SseTransport" where
  "sseSetStatus st t = ([StatusEvent st], t\<lparr>status := st\<rparr>)"

definition sseLog :: "nat \<Rightarrow> McpLogLevel \<Rightarrow> string \<Rightarrow> TransportEmission list" where
  "sseLog now lvl msg = [LogEvent \<lparr>log_level = lvl, log_message = msg, log_time = now, log_data = None\<rparr>]"

definition emitError :: "nat \<Rightarrow> Error \<Rightarrow> TransportEmission list" where
  "emitError now e = ErrorEvent e # sseLog now ErrorLevel (message e)"

definition clearReconnectTimer :: "SseTransport \<Rightarrow> SseTransport" where
  "clearReconnectTimer t =
     (case reconnectTimer t of
        None \<Rightarrow> t
      | Some h \<Rightarrow> t\<lparr>live := live t - {h}, reconnectTimer := None\<rparr>)"

definition closeEventSource :: "SseTransport \<Rightarrow> SseTransport" where
  "closeEventSource t =
     (case eventSource t of
        None \<Rightarrow> t
      | Some s \<Rightarrow> t\<lparr>sourcesClosed := sourcesClosed t @ [s], eventSource := None\<rparr>)"

text \<open>
  \<^verbatim>\<open>openEventSource\<close> sets the status and constructs the \<^verbatim>\<open>EventSource\<close>; the three handlers
  it installs are \<open>onopen\<close>, \<open>onmessage\<close> and \<open>onerror\<close> below.
\<close>

definition openEventSource :: "SseTransport \<Rightarrow> TransportEmission list \<times> SseTransport" where
  "openEventSource t =
     (let (ev, t1) = sseSetStatus (if status t = Connected then Connected else Connecting) t
      in (ev, t1\<lparr>eventSource := Some (sourcesOpened t1), sourcesOpened := sourcesOpened t1 + 1\<rparr>))"

text \<open>
  \<^verbatim>\<open>nextBackoffDelay\<close>; \<open>rnd\<close> is the value of \<^verbatim>\<open>Math.random()\<close>. \<^verbatim>\<open>Math.round\<close> rounds to the
  nearest integer and a half upwards, as \<^const>\<open>round\<close> does.
\<close>

definition nextBackoffDelay :: "number \<Rightarrow> SseTransport \<Rightarrow> int \<times> SseTransport" where
  "nextBackoffDelay rnd t =
     (let exp = min (maxDelayMs (reconnectConfig t))
                    (baseDelayMs (reconnectConfig t) * 2 ^ retryAttempt t);
          t1 = t\<lparr>retryAttempt := retryAttempt t + 1\<rparr>;
          spread = exp * jitter (reconnectConfig t)
      in (round (exp - spread + rnd * spread * 2), t1))"

text \<open>
  The two local values of \<^verbatim>\<open>nextBackoffDelay\<close>: \<^verbatim>\<open>exp\<close>, the delay before jitter, and
  \<^verbatim>\<open>spread\<close>.
\<close>

definition backoffExp :: "SseTransport \<Rightarrow> number" where
  "backoffExp t = min (maxDelayMs (reconnectConfig t)) (baseDelayMs (reconnectConfig t) * 2 ^ retryAttempt t)"

definition backoffSpread :: "SseTransport \<Rightarrow> number" where
  "backoffSpread t = backoffExp t * jitter (reconnectConfig t)"

definition scheduleReconnect :: "nat \<Rightarrow> number \<Rightarrow> SseTransport \<Rightarrow> TransportEmission list \<times> SseTransport" where
  "scheduleReconnect now rnd t =
     (let t1 = clearReconnectTimer t;
          (delay, t2) = nextBackoffDelay rnd t1;
          h = length (timeouts t2)
      in (sseLog now Warn (''reconnect in '' @ show_int delay @ ''ms''),
          t2\<lparr>timeouts := timeouts t2 @ [delay], live := insert h (live t2),
             reconnectTimer := Some h\<rparr>))"

subsection \<open>The handlers of the event source and of the reconnect timer\<close>

definition onopen :: "nat \<Rightarrow> SseTransport \<Rightarrow> TransportEmission list \<times> SseTransport" where
  "onopen now t =
     (let (ev, t1) = sseSetStatus Connected (t\<lparr>retryAttempt := 0\<rparr>)
      in (ev @ sseLog now Info ''sse connected'', t1))"

text \<open>
  \<^verbatim>\<open>onmessage\<close>. \<open>parsed\<close> is the outcome of \<^verbatim>\<open>JSON.parse(event.data) as McpMessage\<close>: the value
  it throws or the message. The result is \<open>Inl\<close> for a value thrown out of the handler and
  \<open>Inr\<close> when the handler returns.
\<close>

definition onmessage ::
  "nat \<Rightarrow> Thrown + McpMessage \<Rightarrow> SseTransport \<Rightarrow> Thrown + TransportEmission list \<times> SseTransport" where
  "onmessage now parsed t =
     (case parsed of
        Inr m \<Rightarrow> Inr ([MessageEvent m], t)
      | Inl x \<Rightarrow>
          Inr (emitError now (case x of ThrownError e \<Rightarrow> e | ThrownOther _ \<Rightarrow> Error ''Invalid SSE payload''), t))"

definition onerror :: "nat \<Rightarrow> number \<Rightarrow> SseTransport \<Rightarrow> TransportEmission list \<times> SseTransport" where
  "onerror now rnd t =
     (if manualClose t then ([], t)
      else
        let e1 = emitError now (Error ''SSE connection error'');
            (e2, t2) = sseSetStatus Reconnecting t;
            (e3, t3) = scheduleReconnect now rnd t2
        in (e1 @ e2 @ e3, t3))"

text \<open>
  The callback of the reconnect timer with handle \<open>h\<close>. The runtime calls it once, unless
  the timer was cleared before.
\<close>

definition reconnectFired :: "nat \<Rightarrow> SseTransport \<Rightarrow> TransportEmission list \<times> SseTransport" where
  "reconnectFired h t =
     (if h \<notin> live t then ([], t)
      else
        let t1 = t\<lparr>live := live t - {h}\<rparr>
        in if manualClose t1 then ([], t1) else openEventSource (closeEventSource t1))"

subsection \<open>Public methods\<close>

definition connect :: "SseTransport \<Rightarrow> TransportEmission list \<times> SseTransport" where
  "connect t = openEventSource (clearReconnectTimer (t\<lparr>manualClose := False\<rparr>))"

definition disconnect :: "SseTransport \<Rightarrow> TransportEmission list \<times> SseTransport" where
  "disconnect t = sseSetStatus Disconnected (closeEventSource (clearReconnectTimer (t\<lparr>manualClose := True\<rparr>)))"


text \<open>
  \<^verbatim>\<open>send\<close>. The outcome of \<^verbatim>\<open>fetch\<close> is the error it rejects with, or a response with its
  \<^verbatim>\<open>ok\<close> flag and its status code.
\<close>

datatype FetchOutcome = FetchRejected Error | Response bool nat

fun send :: "FetchOutcome \<Rightarrow> Error + unit" where
  "send (FetchRejected e) = Inl e"
| "send (Response ok code) = (if ok then Inr () else Inl (Error (''POST failed: '' @ show_int (int code))))"

subsection \<open>What can happen to a transport\<close>

datatype SseEvent =
    Connect
  | Disconnect
  | SourceOpen
  | SourceMessage "Thrown + McpMessage"
  | SourceError number
  | ReconnectFired nat

fun sse_step :: "nat \<Rightarrow> SseEvent \<Rightarrow> SseTransport \<Rightarrow> TransportEmission list \<times> SseTransport" where
  "sse_step now Connect t = connect t"
| "sse_step now Disconnect t = disconnect t"
| "sse_step now SourceOpen t = onopen now t"
| "sse_step now (SourceMessage parsed) t = (case onmessage now parsed t of Inr r \<Rightarrow> r | Inl _ \<Rightarrow> ([], t))"
| "sse_step now (SourceError rnd) t = onerror now rnd t"
| "sse_step now (ReconnectFired h) t = reconnectFired h t"

text \<open>An event that schedules a reconnect: an error of the event source that is not ignored.\<close>

fun schedules :: "SseEvent \<Rightarrow> SseTransport \<Rightarrow> bool" where
  "schedules (SourceError rnd) t = (\<not> manualClose t)"
| "schedules _ t = False"

text \<open>A run of events, each with the time it happens at; the emissions are collected.\<close>

fun sse_run :: "(nat \<times> SseEvent) list \<Rightarrow> SseTransport \<Rightarrow> TransportEmission list \<times> SseTransport" where
  "sse_run [] t = ([], t)"
| "sse_run ((now, e) # es) t =
     (let (ev1, t1) = sse_step now e t; (ev2, t2) = sse_run es t1 in (ev1 @ ev2, t2))"

text \<open>Every timer that is still to fire is the one the field \<^verbatim>\<open>reconnectTimer\<close> holds.\<close>

definition sse_inv :: "SseTransport \<Rightarrow> bool" where
  "sse_inv t = (\<forall>h \<in> live t. reconnectTimer t = Some h)"




section \<open>The client on its transport\<close>

text \<open>
  The constructor of \<^verbatim>\<open>McpClient\<close> subscribes a handler to each of the transport's emitters
  (\<^verbatim>\<open>onLog\<close> is there for an \<^verbatim>\<open>SseTransport\<close>) and keeps the unsubscribe functions.
\<close>

definition newMcpClient :: "number option \<Rightarrow> McpClient" where
  "newMcpClient timeout =
     \<lparr>requestTimeoutMs = (case timeout of None \<Rightarrow> 15000 | Some n \<Rightarrow> n),
      pending = [], clientStatus = Disconnected,
      unsubs = [OnMessage, OnStatus, OnError, OnLog],
      emitted = [], promises = Map.empty, timers = Map.empty,
      nextPromise = 0, nextTimer = 0\<rparr>"

record System =
  transport :: SseTransport
  client :: McpClient

definition createMcpClient :: "SseTransport \<Rightarrow> number option \<Rightarrow> System" where
  "createMcpClient t timeout = \<lparr>transport = t, client = newMcpClient timeout\<rparr>"

text \<open>
  Modelled from the spec: the transport's emitters are instances of the missing class
  \<^verbatim>\<open>Emitter\<close>. A handler is called at every emission from its registration until its
  unsubscribe function is called; the handlers of the client are registered as long as
  their unsubscribe functions are in \<open>unsubs\<close>. \<open>deliver\<close> is the handler that the
  constructor subscribed for the kind of the emission.
\<close>

fun deliver :: "nat \<Rightarrow> TransportEmission \<Rightarrow> McpClient \<Rightarrow> McpClient" where
  "deliver now (MessageEvent m) c = (if OnMessage \<in> set (unsubs c) then handleMessage now m c else c)"
| "deliver now (StatusEvent st) c = (if OnStatus \<in> set (unsubs c) then setStatus now st c else c)"
| "deliver now (ErrorEvent e) c = (if OnError \<in> set (unsubs c) then handleError now e c else c)"
| "deliver now (LogEvent l) c =
     (if OnLog \<in> set (unsubs c) then emit (LoggerCalled l) (emit (LogEmitted l) c) else c)"

definition dispatch :: "nat \<Rightarrow> TransportEmission list \<Rightarrow> McpClient \<Rightarrow> McpClient" where
  "dispatch now evs c = fold (deliver now) evs c"

text \<open>
  \<^verbatim>\<open>connect\<close> and \<^verbatim>\<open>disconnect\<close> of the client. The transport's method has no \<^verbatim>\<open>await\<close> of
  its own, so it runs to its end inside the call, and the rest of the client's method runs
  before any timer or event of the event source. Each gives what the transport emitted.
\<close>

definition client_connect :: "nat \<Rightarrow> System \<Rightarrow> TransportEmission list \<times> System" where
  "client_connect now s =
     (let c1 = setStatus now Connecting (client s);
          (ev, t1) = connect (transport s)
      in (ev, \<lparr>transport = t1, client = dispatch now ev c1\<rparr>))"

definition client_disconnect :: "nat \<Rightarrow> System \<Rightarrow> TransportEmission list \<times> System" where
  "client_disconnect now s =
     (let (ev, t1) = disconnect (transport s);
          c1 = dispatch now ev (client s);
          c2 = setStatus now Disconnected c1
      in (ev, \<lparr>transport = t1, client = rejectAllPending (Error ''Disconnected'') c2\<rparr>))"


definition destroy :: "System \<Rightarrow> System" where
  "destroy s = s\<lparr>client := rejectAllPending (Error ''Client destroyed'') ((client s)\<lparr>unsubs := []\<rparr>)\<rparr>"

subsection \<open>What can happen to the client and its transport\<close>

text \<open>
  An event of the transport (its emissions reach the client's handlers), a call of a
  method of the client, or the timer of a request. \<open>ClientRequest rnd mth params\<close> is a call
  of \<^verbatim>\<open>request\<close> through one of the public methods.
\<close>

datatype Event =
    Transport SseEvent
  | ClientConnect
  | ClientDisconnect
  | ClientDestroy
  | ClientRequest string string "JsonValue option"
  | TimeoutFired nat

fun step :: "nat \<Rightarrow> Event \<Rightarrow> System \<Rightarrow> TransportEmission list \<times> System" where
  "step now (Transport e) s =
     (let (ev, t1) = sse_step now e (transport s)
      in (ev, \<lparr>transport = t1, client = dispatch now ev (client s)\<rparr>))"
| "step now ClientConnect s = client_connect now s"
| "step now ClientDisconnect s = client_disconnect now s"
| "step now ClientDestroy s = ([], destroy s)"
| "step now (ClientRequest rnd mth params) s =
     ([], s\<lparr>client := snd (snd (request now rnd mth params (client s)))\<rparr>)"
| "step now (TimeoutFired t) s = ([], s\<lparr>client := timeoutFired t (client s)\<rparr>)"

fun run :: "(nat \<times> Event) list \<Rightarrow> System \<Rightarrow> System" where
  "run [] s = s"
| "run ((now, e) # es) s = run es (snd (step now e s))"

text \<open>The statuses the client has emitted, oldest first.\<close>

fun statusesEmitted :: "ClientEmission list \<Rightarrow> McpStatus list" where
  "statusesEmitted [] = []"
| "statusesEmitted (StatusEmitted st # xs) = st # statusesEmitted xs"
| "statusesEmitted (_ # xs) = statusesEmitted xs"


subsection \<open>The invariant of the client\<close>

text \<open>
  What holds of a client whatever has happened to it: the promises and timers to come are
  fresh; the promise of a timer that is set is pending, and no two timers reject the same
  promise; the keys of the map are distinct and not empty; and each entry holds the two
  functions of one promise and the timer that \<^verbatim>\<open>request\<close> set for its id and this promise.
\<close>

definition client_inv :: "McpClient \<Rightarrow> bool" where
  "client_inv c \<longleftrightarrow>
     (\<forall>p. nextPromise c \<le> p \<longrightarrow> promises c p = None) \<and>
     (\<forall>t. nextTimer c \<le> t \<longrightarrow> timers c t = None) \<and>
     (\<forall>t cb. timers c t = Some cb \<longrightarrow>
        timer_reject cb < nextPromise c \<and> promises c (timer_reject cb) = None) \<and>
     (\<forall>t t' cb cb'. timers c t = Some cb \<longrightarrow> timers c t' = Some cb' \<longrightarrow>
        timer_reject cb = timer_reject cb' \<longrightarrow> t = t') \<and>
     distinct (map fst (pending c)) \<and>
     (\<forall>(i, p) \<in> set (pending c). i \<noteq> [] \<and> resolve p = reject p \<and>
        (\<exists>cb. timers c (timeoutId p) = Some cb \<and> timer_id cb = i \<and> timer_reject cb = reject p))"



section \<open>Examples\<close>

text \<open>
  The scenario of the specification: \<^verbatim>\<open>callTool("x", {})\<close> on a new client with a timeout of
  2000 ms, at a moment when \<^verbatim>\<open>Date.now()\<close> is 0 and \<^verbatim>\<open>Math.random().toString(36)\<close> is
  \<^verbatim>\<open>"0.abc"\<close>, so that the id of the request is \<^verbatim>\<open>"0-abc"\<close>; and the responses to it.
\<close>

definition demo_client :: McpClient where
  "demo_client = snd (snd (callTool 0 ''0.abc'' ''x'' (Some (JObject [])) (newMcpClient (Some 2000))))"






text \<open>The transport of the test of the backoff, and one with a base delay of 103 ms.\<close>

definition test_transport :: SseTransport where
  "test_transport = newSseTransport None None
     (Some \<lparr>opt_baseDelayMs = Some 100, opt_maxDelayMs = Some 1000, opt_jitter = Some 0\<rparr>)"

definition odd_transport :: SseTransport where
  "odd_transport = newSseTransport None None
     (Some \<lparr>opt_baseDelayMs = Some 103, opt_maxDelayMs = None, opt_jitter = None\<rparr>)"

section \<open>Lemmas about the client\<close>

subsection \<open>What each method leaves as it is\<close>

lemma emit_fields [simp]:
  "pending (emit x c) = pending c" "promises (emit x c) = promises c" "timers (emit x c) = timers c"
  "nextPromise (emit x c) = nextPromise c" "nextTimer (emit x c) = nextTimer c"
  "unsubs (emit x c) = unsubs c" "requestTimeoutMs (emit x c) = requestTimeoutMs c"
  "clientStatus (emit x c) = clientStatus c" "emitted (emit x c) = emitted c @ [x]"
  by (simp_all add: emit_def)

lemma clientLog_fields [simp]:
  "pending (clientLog now lvl msg d c) = pending c" "promises (clientLog now lvl msg d c) = promises c"
  "timers (clientLog now lvl msg d c) = timers c"
  "nextPromise (clientLog now lvl msg d c) = nextPromise c" "nextTimer (clientLog now lvl msg d c) = nextTimer c"
  "unsubs (clientLog now lvl msg d c) = unsubs c" "requestTimeoutMs (clientLog now lvl msg d c) = requestTimeoutMs c"
  "clientStatus (clientLog now lvl msg d c) = clientStatus c"
  by (simp_all add: clientLog_def Let_def)

lemma clientLog_emitted:
  "emitted (clientLog now lvl msg d c) =
     emitted c @ [LogEmitted \<lparr>log_level = lvl, log_message = msg, log_time = now, log_data = d\<rparr>,
                  LoggerCalled \<lparr>log_level = lvl, log_message = msg, log_time = now, log_data = d\<rparr>]"
  by (simp add: clientLog_def Let_def)

lemma setStatus_fields [simp]:
  "pending (setStatus now st c) = pending c" "promises (setStatus now st c) = promises c"
  "timers (setStatus now st c) = timers c"
  "nextPromise (setStatus now st c) = nextPromise c" "nextTimer (setStatus now st c) = nextTimer c"
  "unsubs (setStatus now st c) = unsubs c" "requestTimeoutMs (setStatus now st c) = requestTimeoutMs c"
  "clientStatus (setStatus now st c) = st"
  by (simp_all add: setStatus_def)

lemma handleError_fields [simp]:
  "pending (handleError now e c) = pending c" "promises (handleError now e c) = promises c"
  "timers (handleError now e c) = timers c"
  "nextPromise (handleError now e c) = nextPromise c" "nextTimer (handleError now e c) = nextTimer c"
  "unsubs (handleError now e c) = unsubs c" "requestTimeoutMs (handleError now e c) = requestTimeoutMs c"
  "clientStatus (handleError now e c) = clientStatus c"
  by (simp_all add: handleError_def)

lemma settle_fields [simp]:
  "pending (settle p v c) = pending c" "timers (settle p v c) = timers c"
  "nextPromise (settle p v c) = nextPromise c" "nextTimer (settle p v c) = nextTimer c"
  "unsubs (settle p v c) = unsubs c" "requestTimeoutMs (settle p v c) = requestTimeoutMs c"
  "clientStatus (settle p v c) = clientStatus c" "emitted (settle p v c) = emitted c"
  by (simp_all add: settle_def split: option.splits)

lemma settle_promises:
  "promises (settle p v c) q = (if q = p \<and> promises c p = None then Some v else promises c q)"
  by (simp add: settle_def split: option.splits)

lemma clearTimeout_fields [simp]:
  "pending (clearTimeout t c) = pending c" "promises (clearTimeout t c) = promises c"
  "timers (clearTimeout t c) = (timers c)(t := None)"
  "nextPromise (clearTimeout t c) = nextPromise c" "nextTimer (clearTimeout t c) = nextTimer c"
  "unsubs (clearTimeout t c) = unsubs c" "requestTimeoutMs (clearTimeout t c) = requestTimeoutMs c"
  "clientStatus (clearTimeout t c) = clientStatus c" "emitted (clearTimeout t c) = emitted c"
  by (simp_all add: clearTimeout_def)

lemma pending_delete_fields [simp]:
  "pending (pending_delete i c) = AList.delete i (pending c)" "promises (pending_delete i c) = promises c"
  "timers (pending_delete i c) = timers c"
  "nextPromise (pending_delete i c) = nextPromise c" "nextTimer (pending_delete i c) = nextTimer c"
  "unsubs (pending_delete i c) = unsubs c" "requestTimeoutMs (pending_delete i c) = requestTimeoutMs c"
  "clientStatus (pending_delete i c) = clientStatus c" "emitted (pending_delete i c) = emitted c"
  by (simp_all add: pending_delete_def)

text \<open>The invariant reads five fields only.\<close>

lemma client_inv_cong:
  assumes "pending c' = pending c" "promises c' = promises c" "timers c' = timers c"
    "nextPromise c' = nextPromise c" "nextTimer c' = nextTimer c"
  shows "client_inv c' = client_inv c"
  by (simp add: client_inv_def assms)

lemma client_inv_emit [simp]: "client_inv (emit x c) = client_inv c"
  by (rule client_inv_cong) simp_all

lemma client_inv_clientLog [simp]: "client_inv (clientLog now lvl msg d c) = client_inv c"
  by (rule client_inv_cong) simp_all

lemma client_inv_setStatus [simp]: "client_inv (setStatus now st c) = client_inv c"
  by (rule client_inv_cong) simp_all

lemma client_inv_handleError [simp]: "client_inv (handleError now e c) = client_inv c"
  by (rule client_inv_cong) simp_all

lemma client_inv_unsubs [simp]: "client_inv (c\<lparr>unsubs := u\<rparr>) = client_inv c"
  by (rule client_inv_cong) simp_all

lemma client_inv_new: "client_inv (newMcpClient timeout)"
  by (simp add: client_inv_def newMcpClient_def)

lemma client_invD:
  assumes "client_inv c"
  shows "\<And>p. nextPromise c \<le> p \<Longrightarrow> promises c p = None"
    and "\<And>t. nextTimer c \<le> t \<Longrightarrow> timers c t = None"
    and "\<And>t cb. timers c t = Some cb \<Longrightarrow> timer_reject cb < nextPromise c \<and> promises c (timer_reject cb) = None"
    and "\<And>t t' cb cb'. timers c t = Some cb \<Longrightarrow> timers c t' = Some cb' \<Longrightarrow>
           timer_reject cb = timer_reject cb' \<Longrightarrow> t = t'"
    and "distinct (map fst (pending c))"
  using assms by (simp_all add: client_inv_def)

lemma client_inv_member:
  assumes "client_inv c" "(i, p) \<in> set (pending c)"
  shows "i \<noteq> [] \<and> resolve p = reject p \<and>
     (\<exists>cb. timers c (timeoutId p) = Some cb \<and> timer_id cb = i \<and> timer_reject cb = reject p)"
proof -
  from assms(1) have "\<forall>(i, p) \<in> set (pending c). i \<noteq> [] \<and> resolve p = reject p \<and>
        (\<exists>cb. timers c (timeoutId p) = Some cb \<and> timer_id cb = i \<and> timer_reject cb = reject p)"
    by (simp add: client_inv_def)
  with assms(2) show ?thesis by fast
qed

lemma in_set_update:
  "(k, x) \<in> set (AList.update i v al) \<Longrightarrow> (k, x) = (i, v) \<or> (k, x) \<in> set al"
  by (induction al) (auto split: if_splits)

lemma pending_delete_settle: "pending_delete i (settle p v c) = settle p v (pending_delete i c)"
  by (simp add: pending_delete_def settle_def split: option.splits)

lemma map_of_delete_in:
  "(k, x) \<in> set (AList.delete i al) \<Longrightarrow> (k, x) \<in> set al \<and> k \<noteq> i"
  by (auto simp: AList.delete_eq)

lemma client_inv_remove:
  assumes inv: "client_inv c" and t: "timers c t = Some cb"
  shows "client_inv (settle (timer_reject cb) v (pending_delete (timer_id cb) (clearTimeout t c)))"
    (is "client_inv ?c'")
proof -
  note a1 = client_invD(1)[OF inv] and a2 = client_invD(2)[OF inv] and a3 = client_invD(3)[OF inv]
    and a4 = client_invD(4)[OF inv] and a5 = client_invD(5)[OF inv] and a6 = client_inv_member[OF inv]
  have b1: "\<forall>p. nextPromise ?c' \<le> p \<longrightarrow> promises ?c' p = None"
    using a1 a3[OF t] by (auto simp: settle_promises)
  have b2: "\<forall>u. nextTimer ?c' \<le> u \<longrightarrow> timers ?c' u = None"
    using a2 by simp
  have b3: "\<forall>u cb'. timers ?c' u = Some cb' \<longrightarrow>
      timer_reject cb' < nextPromise ?c' \<and> promises ?c' (timer_reject cb') = None"
  proof (intro allI impI)
    fix u cb' assume "timers ?c' u = Some cb'"
    then have u: "u \<noteq> t" "timers c u = Some cb'" by (auto split: if_splits)
    with a4[OF t u(2)] have "timer_reject cb' \<noteq> timer_reject cb" by auto
    with a3[OF u(2)] show "timer_reject cb' < nextPromise ?c' \<and> promises ?c' (timer_reject cb') = None"
      by (simp add: settle_promises)
  qed
  have b4: "\<forall>u u' cb1 cb2. timers ?c' u = Some cb1 \<longrightarrow> timers ?c' u' = Some cb2 \<longrightarrow>
        timer_reject cb1 = timer_reject cb2 \<longrightarrow> u = u'"
    using a4 by (auto split: if_splits)
  have b5: "distinct (map fst (pending ?c'))"
    using a5 by (simp add: distinct_delete)
  have b6: "\<forall>(i, p) \<in> set (pending ?c'). i \<noteq> [] \<and> resolve p = reject p \<and>
        (\<exists>cb'. timers ?c' (timeoutId p) = Some cb' \<and> timer_id cb' = i \<and> timer_reject cb' = reject p)"
  proof (clarify)
    fix i p assume "(i, p) \<in> set (pending ?c')"
    then have m: "(i, p) \<in> set (pending c)" and ne: "i \<noteq> timer_id cb"
      by (auto dest: map_of_delete_in)
    from a6[OF m] obtain cb' where cb': "i \<noteq> []" "resolve p = reject p"
      "timers c (timeoutId p) = Some cb'" "timer_id cb' = i" "timer_reject cb' = reject p" by blast
    with ne t have "timeoutId p \<noteq> t" by auto
    with cb' show "i \<noteq> [] \<and> resolve p = reject p \<and>
        (\<exists>cb'. timers ?c' (timeoutId p) = Some cb' \<and> timer_id cb' = i \<and> timer_reject cb' = reject p)"
      by simp
  qed
  show ?thesis unfolding client_inv_def using b1 b2 b3 b4 b5 b6 by blast
qed

lemma client_inv_timeoutFired: "client_inv c \<Longrightarrow> client_inv (timeoutFired t c)"
  by (auto simp: timeoutFired_def client_inv_remove split: option.splits)

lemma client_inv_entry:
  assumes "client_inv c" "map_of (pending c) i = Some p"
  shows "i \<noteq> [] \<and> resolve p = reject p \<and>
     (\<exists>cb. timers c (timeoutId p) = Some cb \<and> timer_id cb = i \<and> timer_reject cb = reject p)"
  using client_inv_member[OF assms(1) map_of_SomeD[OF assms(2)]] .

lemma client_inv_handleMessage: "client_inv c \<Longrightarrow> client_inv (handleMessage now m c)"
proof -
  assume inv: "client_inv c"
  show ?thesis
  proof (cases "\<exists>i p. msg_id m = Some i \<and> i \<noteq> [] \<and> map_of (pending c) i = Some p")
    case False
    then show ?thesis using inv by (auto simp: handleMessage_def Let_def split: option.splits)
  next
    case True
    then obtain i p where ip: "msg_id m = Some i" "i \<noteq> []" "map_of (pending c) i = Some p" by blast
    from client_inv_entry[OF inv ip(3)] obtain cb where
      cb: "resolve p = reject p" "timers c (timeoutId p) = Some cb" "timer_id cb = i" "timer_reject cb = reject p"
      by blast
    have inv': "client_inv (emit (MessageEmitted m) c)" using inv by simp
    have t': "timers (emit (MessageEmitted m) c) (timeoutId p) = Some cb" using cb by simp
    from client_inv_remove[OF inv' t'] cb ip show ?thesis
      by (auto simp: handleMessage_def Let_def split: option.splits)
  qed
qed

lemma in_set_delete: "(k, x) \<in> set al \<Longrightarrow> k \<noteq> i \<Longrightarrow> (k, x) \<in> set (AList.delete i al)"
  by (auto simp: AList.delete_eq)

lemma client_inv_rejectEntries:
  "client_inv c \<Longrightarrow> set es \<subseteq> set (pending c) \<Longrightarrow> distinct (map fst es) \<Longrightarrow>
   client_inv (rejectEntries e es c)"
proof (induction es arbitrary: c)
  case Nil
  then show ?case by simp
next
  case (Cons x es)
  obtain i p where x: "x = (i, p)" by (cases x)
  from Cons.prems x have m: "(i, p) \<in> set (pending c)" by simp
  from client_inv_member[OF Cons.prems(1) m] obtain cb where
    cb: "timers c (timeoutId p) = Some cb" "timer_id cb = i" "timer_reject cb = reject p"
    by blast
  let ?c1 = "pending_delete i (settle (reject p) (Rejected e) (clearTimeout (timeoutId p) c))"
  have inv1: "client_inv ?c1"
    using client_inv_remove[OF Cons.prems(1) cb(1), of "Rejected e"] cb
    by (simp add: pending_delete_settle)
  have sub: "set es \<subseteq> set (pending ?c1)"
  proof
    fix y assume y: "y \<in> set es"
    obtain k q where kq: "y = (k, q)" by (cases y)
    from y kq Cons.prems(3) x have "k \<noteq> i" by force
    moreover from y kq Cons.prems(2) have "(k, q) \<in> set (pending c)" by auto
    ultimately show "y \<in> set (pending ?c1)" using kq by (simp add: in_set_delete)
  qed
  from Cons.prems(3) have d: "distinct (map fst es)" by simp
  show ?case unfolding x rejectEntries.simps by (rule Cons.IH[OF inv1 sub d])
qed

lemma client_inv_rejectAllPending: "client_inv c \<Longrightarrow> client_inv (rejectAllPending e c)"
  unfolding rejectAllPending_def
  by (rule client_inv_rejectEntries) (simp_all add: client_inv_def)

lemma request_eq:
  "request now rnd mth params c =
    (\<lparr>msg_id = Some (generateId now rnd), msg_method = Some mth, msg_params = params,
      msg_result = None, msg_error = None\<rparr>,
     nextPromise c,
     clientLog now Debug (''send '' @ mth)
       (Some (JObject ((''id'', JString (generateId now rnd)) # json_member ''params'' params)))
       (c\<lparr>nextPromise := nextPromise c + 1, nextTimer := nextTimer c + 1,
          timers := (timers c)(nextTimer c \<mapsto>
             \<lparr>timer_delay = requestTimeoutMs c, timer_id = generateId now rnd,
              timer_method = mth, timer_reject = nextPromise c\<rparr>),
          pending := AList.update (generateId now rnd)
             \<lparr>resolve = nextPromise c, reject = nextPromise c, timeoutId = nextTimer c\<rparr> (pending c)\<rparr>))"
  by (simp add: request_def Let_def)

lemma toString_radix_nonempty: "toString_radix r n \<noteq> []"
  by (subst toString_radix.simps) simp

lemma generateId_nonempty: "generateId now rnd \<noteq> []"
  by (simp add: generateId_def toString_radix_nonempty)

lemma client_inv_request:
  assumes inv: "client_inv c"
  shows "client_inv (snd (snd (request now rnd mth params c)))"
proof -
  let ?i = "generateId now rnd"
  let ?cb = "\<lparr>timer_delay = requestTimeoutMs c, timer_id = ?i, timer_method = mth, timer_reject = nextPromise c\<rparr>"
  let ?pr = "\<lparr>resolve = nextPromise c, reject = nextPromise c, timeoutId = nextTimer c\<rparr>"
  let ?c' = "c\<lparr>nextPromise := nextPromise c + 1, nextTimer := nextTimer c + 1,
          timers := (timers c)(nextTimer c \<mapsto> ?cb),
          pending := AList.update ?i ?pr (pending c)\<rparr>"
  note a1 = client_invD(1)[OF inv] and a2 = client_invD(2)[OF inv] and a3 = client_invD(3)[OF inv]
    and a4 = client_invD(4)[OF inv] and a5 = client_invD(5)[OF inv]
  have b1: "\<forall>p. nextPromise ?c' \<le> p \<longrightarrow> promises ?c' p = None"
    using a1 by simp
  have b2: "\<forall>u. nextTimer ?c' \<le> u \<longrightarrow> timers ?c' u = None"
    using a2 by simp
  have b3: "\<forall>u cb'. timers ?c' u = Some cb' \<longrightarrow>
      timer_reject cb' < nextPromise ?c' \<and> promises ?c' (timer_reject cb') = None"
    using a3 a1[of "nextPromise c"] by (auto simp: less_Suc_eq split: if_splits)
  have b4: "\<forall>u u' cb1 cb2. timers ?c' u = Some cb1 \<longrightarrow> timers ?c' u' = Some cb2 \<longrightarrow>
        timer_reject cb1 = timer_reject cb2 \<longrightarrow> u = u'"
  proof (intro allI impI)
    fix u u' cb1 cb2
    assume h: "timers ?c' u = Some cb1" "timers ?c' u' = Some cb2" "timer_reject cb1 = timer_reject cb2"
    have old: "\<And>w cbw. w \<noteq> nextTimer c \<Longrightarrow> timers ?c' w = Some cbw \<Longrightarrow> timer_reject cbw < nextPromise c"
      using a3 by auto
    show "u = u'"
    proof (cases "u = nextTimer c"; cases "u' = nextTimer c")
      assume "u \<noteq> nextTimer c" "u' \<noteq> nextTimer c"
      with h a4[of u cb1 u' cb2] show ?thesis by simp
    next
      assume e: "u = nextTimer c" "u' \<noteq> nextTimer c"
      with h old[of u' cb2] show ?thesis by auto
    next
      assume e: "u \<noteq> nextTimer c" "u' = nextTimer c"
      with h old[of u cb1] show ?thesis by auto
    qed simp
  qed
  have b5: "distinct (map fst (pending ?c'))"
    using a5 by (simp add: distinct_update)
  have b6: "\<forall>(i, p) \<in> set (pending ?c'). i \<noteq> [] \<and> resolve p = reject p \<and>
        (\<exists>cb'. timers ?c' (timeoutId p) = Some cb' \<and> timer_id cb' = i \<and> timer_reject cb' = reject p)"
  proof (clarify)
    fix i p assume "(i, p) \<in> set (pending ?c')"
    then have "(i, p) = (?i, ?pr) \<or> (i, p) \<in> set (pending c)"
      by (auto dest: in_set_update)
    then consider "i = ?i" "p = ?pr" | "(i, p) \<in> set (pending c)" by auto
    then show "i \<noteq> [] \<and> resolve p = reject p \<and>
        (\<exists>cb'. timers ?c' (timeoutId p) = Some cb' \<and> timer_id cb' = i \<and> timer_reject cb' = reject p)"
    proof cases
      case 1
      then show ?thesis by (simp add: generateId_nonempty)
    next
      case 2
      from client_inv_member[OF inv 2] obtain cb' where cb': "i \<noteq> []" "resolve p = reject p"
        "timers c (timeoutId p) = Some cb'" "timer_id cb' = i" "timer_reject cb' = reject p" by blast
      with a2[of "timeoutId p"] have "timeoutId p \<noteq> nextTimer c" by auto
      with cb' show ?thesis by simp
    qed
  qed
  have "client_inv ?c'" unfolding client_inv_def using b1 b2 b3 b4 b5 b6 by blast
  then show ?thesis by (simp add: request_eq)
qed

subsection \<open>rejectEntries\<close>

lemma rejectEntries_fields [simp]:
  "nextPromise (rejectEntries e es c) = nextPromise c" "nextTimer (rejectEntries e es c) = nextTimer c"
  "unsubs (rejectEntries e es c) = unsubs c" "requestTimeoutMs (rejectEntries e es c) = requestTimeoutMs c"
  "clientStatus (rejectEntries e es c) = clientStatus c" "emitted (rejectEntries e es c) = emitted c"
  by (induction e es c rule: rejectEntries.induct; simp)+



lemma rejectEntries_pending:
  "pending (rejectEntries e es c) = filter (\<lambda>x. fst x \<notin> fst ` set es) (pending c)"
  by (induction e es c rule: rejectEntries.induct) (auto simp: AList.delete_eq intro!: filter_cong)

lemma rejectAllPending_fields [simp]:
  "nextPromise (rejectAllPending e c) = nextPromise c" "nextTimer (rejectAllPending e c) = nextTimer c"
  "unsubs (rejectAllPending e c) = unsubs c" "requestTimeoutMs (rejectAllPending e c) = requestTimeoutMs c"
  "clientStatus (rejectAllPending e c) = clientStatus c" "emitted (rejectAllPending e c) = emitted c"
  by (simp_all add: rejectAllPending_def)

lemma rejectAllPending_pending [simp]: "pending (rejectAllPending e c) = []"
  by (simp add: rejectAllPending_def rejectEntries_pending)



subsection \<open>A settled promise stays as it is\<close>



lemma request_promises [simp]: "promises (snd (snd (request now rnd mth params c))) = promises c"
  by (simp add: request_eq)





subsection \<open>The invariant along a run\<close>

lemma client_inv_deliver: "client_inv c \<Longrightarrow> client_inv (deliver now ev c)"
  by (cases ev) (auto simp: client_inv_handleMessage)

lemma client_inv_dispatch: "client_inv c \<Longrightarrow> client_inv (dispatch now evs c)"
  unfolding dispatch_def by (induction evs arbitrary: c) (auto simp: client_inv_deliver)

lemma client_inv_step:
  assumes "client_inv (client s)"
  shows "client_inv (client (snd (step now e s)))"
proof (cases e)
  case (Transport x)
  then show ?thesis using assms by (auto simp: client_inv_dispatch split: prod.splits)
next
  case ClientConnect
  then show ?thesis using assms
    by (auto simp: client_connect_def Let_def client_inv_dispatch split: prod.splits)
next
  case ClientDisconnect
  then show ?thesis using assms
    by (auto simp: client_disconnect_def Let_def client_inv_dispatch client_inv_rejectAllPending split: prod.splits)
next
  case ClientDestroy
  then show ?thesis using assms by (simp add: destroy_def client_inv_rejectAllPending)
next
  case (ClientRequest x1 x2 x3)
  then show ?thesis using assms by (simp add: client_inv_request)
next
  case (TimeoutFired t)
  then show ?thesis using assms by (simp add: client_inv_timeoutFired)
qed

lemma client_inv_run: "client_inv (client s) \<Longrightarrow> client_inv (client (run es s))"
  by (induction es arbitrary: s) (auto simp: client_inv_step)

text \<open>So the invariant holds of the client in every state that a new client can reach.\<close>

lemma client_inv_reachable: "client_inv (client (run es (createMcpClient t timeout)))"
  by (rule client_inv_run) (simp add: createMcpClient_def client_inv_new)

subsection \<open>The example\<close>

lemma generateId_demo: "generateId 0 ''0.abc'' = ''0-abc''"
  by (simp add: generateId_def toString_radix.simps[of 36 0] digit_char_def)


lemma demo_client_fields:
  "pending demo_client = [(''0-abc'', \<lparr>resolve = 0, reject = 0, timeoutId = 0\<rparr>)]"
  "promises demo_client = Map.empty"
  "timers demo_client = [0 \<mapsto> \<lparr>timer_delay = 2000, timer_id = ''0-abc'', timer_method = ''mcp.callTool'', timer_reject = 0\<rparr>]"
  "nextPromise demo_client = 1" "nextTimer demo_client = 1"
  "unsubs demo_client = [OnMessage, OnStatus, OnError, OnLog]"
  "clientStatus demo_client = Disconnected"
  by (simp_all add: demo_client_def callTool_def request_eq generateId_demo newMcpClient_def)

lemma request_result_sent [simp]: "request_result (Inr u) p c = promises c p"
  by (simp add: request_result_def)




subsection \<open>Requests, destroy and disconnect\<close>






lemma dispatch_status_fields [simp]:
  "pending (dispatch now [StatusEvent st] c) = pending c"
  "promises (dispatch now [StatusEvent st] c) = promises c"
  "timers (dispatch now [StatusEvent st] c) = timers c"
  by (simp_all add: dispatch_def)

section \<open>Lemmas about the transport\<close>

lemma clearReconnectTimer_fields [simp]:
  "status (clearReconnectTimer t) = status t" "manualClose (clearReconnectTimer t) = manualClose t"
  "retryAttempt (clearReconnectTimer t) = retryAttempt t" "reconnectConfig (clearReconnectTimer t) = reconnectConfig t"
  "eventSource (clearReconnectTimer t) = eventSource t" "timeouts (clearReconnectTimer t) = timeouts t"
  "sourcesOpened (clearReconnectTimer t) = sourcesOpened t" "sourcesClosed (clearReconnectTimer t) = sourcesClosed t"
  "reconnectTimer (clearReconnectTimer t) = None"
  by (simp_all add: clearReconnectTimer_def split: option.splits)

lemma clearReconnectTimer_live:
  "live (clearReconnectTimer t) = (case reconnectTimer t of None \<Rightarrow> live t | Some h \<Rightarrow> live t - {h})"
  by (simp add: clearReconnectTimer_def split: option.splits)

lemma clearReconnectTimer_live_inv: "sse_inv t \<Longrightarrow> live (clearReconnectTimer t) = {}"
  by (auto simp: clearReconnectTimer_live sse_inv_def split: option.splits)

lemma closeEventSource_fields [simp]:
  "status (closeEventSource t) = status t" "manualClose (closeEventSource t) = manualClose t"
  "retryAttempt (closeEventSource t) = retryAttempt t" "reconnectConfig (closeEventSource t) = reconnectConfig t"
  "reconnectTimer (closeEventSource t) = reconnectTimer t" "timeouts (closeEventSource t) = timeouts t"
  "live (closeEventSource t) = live t" "sourcesOpened (closeEventSource t) = sourcesOpened t"
  "eventSource (closeEventSource t) = None"
  by (simp_all add: closeEventSource_def split: option.splits)

lemma openEventSource_fields [simp]:
  "manualClose (snd (openEventSource t)) = manualClose t"
  "retryAttempt (snd (openEventSource t)) = retryAttempt t"
  "reconnectConfig (snd (openEventSource t)) = reconnectConfig t"
  "reconnectTimer (snd (openEventSource t)) = reconnectTimer t"
  "timeouts (snd (openEventSource t)) = timeouts t"
  "live (snd (openEventSource t)) = live t"
  by (simp_all add: openEventSource_def sseSetStatus_def)

lemma nextBackoffDelay_eq:
  "nextBackoffDelay rnd t =
     (round (backoffExp t - backoffSpread t + rnd * backoffSpread t * 2), t\<lparr>retryAttempt := retryAttempt t + 1\<rparr>)"
  by (simp add: nextBackoffDelay_def backoffExp_def backoffSpread_def Let_def)

lemma backoff_clear [simp]:
  "backoffExp (clearReconnectTimer t) = backoffExp t" "backoffSpread (clearReconnectTimer t) = backoffSpread t"
  by (simp_all add: backoffExp_def backoffSpread_def)

lemma backoff_status [simp]:
  "backoffExp (t\<lparr>status := st\<rparr>) = backoffExp t" "backoffSpread (t\<lparr>status := st\<rparr>) = backoffSpread t"
  by (simp_all add: backoffExp_def backoffSpread_def)

lemma scheduleReconnect_state:
  "snd (scheduleReconnect now rnd t) =
     (clearReconnectTimer t)\<lparr>retryAttempt := retryAttempt t + 1,
        timeouts := timeouts t @ [fst (nextBackoffDelay rnd t)],
        live := insert (length (timeouts t)) (live (clearReconnectTimer t)),
        reconnectTimer := Some (length (timeouts t))\<rparr>"
  by (simp add: scheduleReconnect_def nextBackoffDelay_eq Let_def)

lemma onerror_state:
  "snd (onerror now rnd t) =
     (if manualClose t then t
      else (clearReconnectTimer (t\<lparr>status := Reconnecting\<rparr>))\<lparr>retryAttempt := retryAttempt t + 1,
        timeouts := timeouts t @ [fst (nextBackoffDelay rnd t)],
        live := insert (length (timeouts t)) (live (clearReconnectTimer (t\<lparr>status := Reconnecting\<rparr>))),
        reconnectTimer := Some (length (timeouts t))\<rparr>)"
  by (simp add: onerror_def sseSetStatus_def case_prod_beta scheduleReconnect_state nextBackoffDelay_eq)

lemma sse_step_retryAttempt:
  "retryAttempt (snd (sse_step now e t)) =
     (if e = SourceOpen then 0 else if schedules e t then retryAttempt t + 1 else retryAttempt t)"
  by (cases e)
     (auto simp: connect_def disconnect_def onopen_def onmessage_def onerror_state reconnectFired_def
        sseSetStatus_def Let_def split: sum.splits)

lemma sse_step_timeouts:
  "timeouts (snd (sse_step now e t)) =
     (case e of
        SourceError rnd \<Rightarrow> if manualClose t then timeouts t else timeouts t @ [fst (nextBackoffDelay rnd t)]
      | _ \<Rightarrow> timeouts t)"
  by (cases e)
     (auto simp: connect_def disconnect_def onopen_def onmessage_def onerror_state reconnectFired_def
        sseSetStatus_def Let_def split: sum.splits)

lemma round_bounds:
  fixes rnd :: real
  assumes "0 \<le> rnd" "rnd < 1" "0 \<le> spread"
  shows "ex - spread - 1 / 2 \<le> real_of_int (round (ex - spread + rnd * spread * 2))
       \<and> real_of_int (round (ex - spread + rnd * spread * 2)) \<le> ex + spread + 1 / 2"
proof -
  let ?v = "ex - spread + rnd * spread * 2"
  have lo: "ex - spread \<le> ?v" using assms by simp
  have "rnd * spread \<le> 1 * spread" using assms by (intro mult_right_mono) auto
  then have hi: "?v \<le> ex + spread" by simp
  have "?v - 1 / 2 \<le> real_of_int (round ?v)" "real_of_int (round ?v) \<le> ?v + 1 / 2"
    using of_int_round_ge[of ?v] of_int_round_le[of ?v] by auto
  with lo hi show ?thesis by linarith
qed

lemma test_scenario:
  "timeouts (snd (sse_run [(n0, Connect), (n1, SourceError r1), (n2, SourceError r2), (n3, SourceError r3)]
      test_transport)) = [100, 200, 400]"
  by (simp add: test_transport_def newSseTransport_def mergeBackoff_def connect_def openEventSource_def
      clearReconnectTimer_def sseSetStatus_def onerror_def scheduleReconnect_def nextBackoffDelay_def
      emitError_def sseLog_def Let_def)

lemma sse_inv_new: "sse_inv (newSseTransport sse post r)"
  by (simp add: sse_inv_def newSseTransport_def)

lemma sse_inv_step: "sse_inv t \<Longrightarrow> sse_inv (snd (sse_step now e t))"
proof (cases e)
  case Connect
  assume "sse_inv t"
  then have "sse_inv (t\<lparr>manualClose := False\<rparr>)" by (simp add: sse_inv_def)
  from clearReconnectTimer_live_inv[OF this] Connect show ?thesis
    by (simp add: connect_def sse_inv_def)
next
  case Disconnect
  assume "sse_inv t"
  then have "sse_inv (t\<lparr>manualClose := True\<rparr>)" by (simp add: sse_inv_def)
  from clearReconnectTimer_live_inv[OF this] Disconnect show ?thesis
    by (simp add: disconnect_def sseSetStatus_def sse_inv_def)
next
  case SourceOpen
  assume "sse_inv t"
  with SourceOpen show ?thesis by (simp add: onopen_def sseSetStatus_def sse_inv_def)
next
  case (SourceMessage x)
  assume "sse_inv t"
  with SourceMessage show ?thesis by (simp add: onmessage_def split: sum.splits)
next
  case (SourceError x)
  assume "sse_inv t"
  then have "sse_inv (t\<lparr>status := Reconnecting\<rparr>)" by (simp add: sse_inv_def)
  from clearReconnectTimer_live_inv[OF this] SourceError \<open>sse_inv t\<close> show ?thesis
    by (simp add: onerror_state sse_inv_def)
next
  case (ReconnectFired h)
  assume "sse_inv t"
  then have one: "\<And>a b. a \<in> live t \<Longrightarrow> b \<in> live t \<Longrightarrow> a = b"
    by (metis option.inject sse_inv_def)
  from \<open>sse_inv t\<close> ReconnectFired show ?thesis
    by (auto simp: reconnectFired_def sse_inv_def Let_def dest: one)
qed

lemma sse_inv_run: "sse_inv t \<Longrightarrow> sse_inv (snd (sse_run es t))"
  by (induction es arbitrary: t) (auto simp: sse_inv_step case_prod_beta Let_def)

text \<open>So the invariant holds of a transport in every state that a new transport can reach.\<close>

lemma sse_inv_reachable: "sse_inv (snd (sse_run es (newSseTransport sse post r)))"
  by (rule sse_inv_run) (rule sse_inv_new)

text \<open>While the transport is closed by hand and no timer is set, only \<open>Connect\<close> changes that.\<close>

lemma closed_step:
  assumes "manualClose t" "live t = {}" "e \<noteq> Connect"
  shows "manualClose (snd (sse_step now e t)) \<and> live (snd (sse_step now e t)) = {}
       \<and> timeouts (snd (sse_step now e t)) = timeouts t"
  using assms
  by (cases e)
     (auto simp: disconnect_def sseSetStatus_def clearReconnectTimer_live onopen_def onmessage_def
        onerror_def reconnectFired_def split: option.splits sum.splits)

lemma closed_run:
  assumes "manualClose t" "live t = {}" "\<forall>(n, e) \<in> set es. e \<noteq> Connect"
  shows "manualClose (snd (sse_run es t)) \<and> live (snd (sse_run es t)) = {}
       \<and> timeouts (snd (sse_run es t)) = timeouts t"
  using assms
proof (induction es arbitrary: t)
  case Nil
  then show ?case by simp
next
  case (Cons x es)
  obtain n e where x: "x = (n, e)" by (cases x)
  with Cons.prems have e: "e \<noteq> Connect" by simp
  note s = closed_step[OF Cons.prems(1,2) e, of n]
  from Cons.prems(3) have r: "\<forall>(n, e) \<in> set es. e \<noteq> Connect" by simp
  from Cons.IH[of "snd (sse_step n e t)"] s r show ?case
    by (simp add: x case_prod_beta Let_def)
qed

section \<open>Lemmas about the statuses\<close>

lemma statusesEmitted_append [simp]:
  "statusesEmitted (xs @ ys) = statusesEmitted xs @ statusesEmitted ys"
  by (induction xs rule: statusesEmitted.induct) simp_all


lemma setStatus_emitted [simp]:
  "statusesEmitted (emitted (setStatus now st c)) = statusesEmitted (emitted c) @ [st]"
  by (simp add: setStatus_def clientLog_emitted)

lemma handleError_emitted [simp]:
  "statusesEmitted (emitted (handleError now e c)) = statusesEmitted (emitted c)"
  by (simp add: handleError_def clientLog_emitted)

lemma handleMessage_status [simp]:
  "statusesEmitted (emitted (handleMessage now m c)) = statusesEmitted (emitted c)"
  "clientStatus (handleMessage now m c) = clientStatus c"
  "unsubs (handleMessage now m c) = unsubs c"
  by (auto simp: handleMessage_def Let_def clientLog_emitted split: option.splits)

lemma request_status [simp]:
  "statusesEmitted (emitted (snd (snd (request now rnd mth params c)))) = statusesEmitted (emitted c)"
  "clientStatus (snd (snd (request now rnd mth params c))) = clientStatus c"
  "unsubs (snd (snd (request now rnd mth params c))) = unsubs c"
  by (simp_all add: request_eq clientLog_emitted)

lemma timeoutFired_status [simp]:
  "statusesEmitted (emitted (timeoutFired t c)) = statusesEmitted (emitted c)"
  "clientStatus (timeoutFired t c) = clientStatus c"
  "unsubs (timeoutFired t c) = unsubs c"
  by (simp_all add: timeoutFired_def split: option.splits)






section \<open>Lemmas about a waiting request\<close>












section \<open>Lemmas about the ids\<close>

lemma digits_distinct: "distinct ''0123456789abcdefghijklmnopqrstuvwxyz''"
  by simp

lemma digit_char_inj:
  assumes "a < 36" "b < 36" "digit_char a = digit_char b"
  shows "a = b"
  using assms nth_eq_iff_index_eq[OF digits_distinct, of a b] by (simp add: digit_char_def)

lemma digit_char_not_dash: "d < 36 \<Longrightarrow> digit_char d \<noteq> CHR ''-''"
proof -
  assume "d < 36"
  then have "digit_char d \<in> set ''0123456789abcdefghijklmnopqrstuvwxyz''"
    unfolding digit_char_def by (intro nth_mem) simp
  then show ?thesis by auto
qed

lemma toString_radix_no_dash:
  "2 \<le> r \<Longrightarrow> r \<le> 36 \<Longrightarrow> CHR ''-'' \<notin> set (toString_radix r n)"
proof (induction r n rule: toString_radix.induct)
  case (1 r n)
  show ?case
  proof (cases "n < r")
    case True
    with 1(2,3) have "n < 36" by simp
    from digit_char_not_dash[OF this] True show ?thesis by (subst toString_radix.simps) auto
  next
    case False
    have "n mod r < r" using 1(2) by simp
    with 1(3) have "n mod r < 36" by linarith
    from digit_char_not_dash[OF this] 1 False show ?thesis
      by (subst toString_radix.simps) auto
  qed
qed

lemma toString_radix_length:
  "2 \<le> r \<Longrightarrow> (length (toString_radix r n) = 1) = (n < r)"
proof -
  assume r: "2 \<le> r"
  show ?thesis
  proof (cases "n < r")
    case True
    then show ?thesis by (subst toString_radix.simps) simp
  next
    case False
    with r have "length (toString_radix r n) = length (toString_radix r (n div r)) + 1"
      by (subst toString_radix.simps) simp
    with False toString_radix_nonempty[of r "n div r"] show ?thesis by (cases "toString_radix r (n div r)") auto
  qed
qed

lemma toString_radix_inj:
  "2 \<le> r \<Longrightarrow> r \<le> 36 \<Longrightarrow> toString_radix r n = toString_radix r m \<Longrightarrow> n = m"
proof (induction r n arbitrary: m rule: toString_radix.induct)
  case (1 r n)
  from 1(2) have len: "(n < r) = (m < r)"
    using toString_radix_length[of r n] toString_radix_length[of r m] 1(4) by simp
  show ?case
  proof (cases "n < r")
    case True
    with len have m: "m < r" by simp
    from True m 1(2) 1(3) 1(4) have "digit_char n = digit_char m"
      by (simp add: toString_radix.simps[of r n] toString_radix.simps[of r m])
    with True m 1(3) show ?thesis by (intro digit_char_inj) auto
  next
    case False
    with len have m: "\<not> m < r" by simp
    from False m 1(2) 1(4) have eq: "toString_radix r (n div r) = toString_radix r (m div r)"
      "digit_char (n mod r) = digit_char (m mod r)"
      by (simp_all add: toString_radix.simps[of r n] toString_radix.simps[of r m])
    have d: "n div r = m div r" using 1(1)[of "m div r"] False 1(2,3) eq(1) by simp
    have lt: "n mod r < r" "m mod r < r" using 1(2) by simp_all
    have "n mod r < 36" "m mod r < 36" using lt 1(3) by linarith+
    then have "n mod r = m mod r" using eq(2) by (intro digit_char_inj)
    with d show ?thesis by (metis div_mult_mod_eq)
  qed
qed

lemma append_dash_eq:
  assumes "CHR ''-'' \<notin> set a" "CHR ''-'' \<notin> set b" "a @ CHR ''-'' # x = b @ CHR ''-'' # y"
  shows "a = b \<and> x = y"
  using assms
proof (induction a arbitrary: b)
  case Nil
  then show ?case by (cases b) auto
next
  case (Cons c a)
  then show ?case by (cases b) auto
qed

lemma generateId_eq_iff:
  "generateId now rnd = generateId now' rnd' \<longleftrightarrow> now = now' \<and> take 8 (drop 2 rnd) = take 8 (drop 2 rnd')"
proof
  assume "generateId now rnd = generateId now' rnd'"
  then have "toString_radix 36 now @ CHR ''-'' # take 8 (drop 2 rnd) =
      toString_radix 36 now' @ CHR ''-'' # take 8 (drop 2 rnd')"
    by (simp add: generateId_def)
  from append_dash_eq[OF _ _ this] toString_radix_no_dash[of 36]
  have "toString_radix 36 now = toString_radix 36 now'" "take 8 (drop 2 rnd) = take 8 (drop 2 rnd')"
    by simp_all
  with toString_radix_inj[of 36 now now'] show "now = now' \<and> take 8 (drop 2 rnd) = take 8 (drop 2 rnd')"
    by simp
next
  assume "now = now' \<and> take 8 (drop 2 rnd) = take 8 (drop 2 rnd')"
  then show "generateId now rnd = generateId now' rnd'" by (simp add: generateId_def)
qed

lemma update_fresh: "k \<notin> fst ` set al \<Longrightarrow> AList.update k v al = al @ [(k, v)]"
  by (induction al) auto

lemma update_present_length: "k \<in> fst ` set al \<Longrightarrow> length (AList.update k v al) = length al"
  by (induction al) auto

section \<open>The claims\<close>










text \<open>
  C5. The delay of a reconnect is \<open>exp - spread + rnd * spread * 2\<close> rounded to the nearest
  integer, with \<open>exp = min maxDelayMs (baseDelayMs * 2 ^ retryAttempt)\<close> and
  \<open>spread = exp * jitter\<close>. For a random number from 0 up to 1 and a spread that is not
  negative the delay is at most one half below \<open>exp - spread\<close> and at most one half above
  \<open>exp + spread\<close>; without jitter and with an integer \<open>exp\<close> it is \<open>exp\<close>. The attempt
  counter is 0 after the event source has opened, one more after an event that schedules a
  reconnect (which is one more call of \<^verbatim>\<open>setTimeout\<close>), and unchanged after any other event.
  With a base of 100 ms, a maximum of 1000 ms and no jitter, three errors after
  \<^verbatim>\<open>connect\<close> set timers of 100, 200 and 400 ms.
\<close>

theorem backoff_delay_and_attempt_counter:
  "(0 \<le> rnd \<and> rnd < 1 \<longrightarrow>
      fst (nextBackoffDelay rnd t) = round (backoffExp t - backoffSpread t + rnd * backoffSpread t * 2)
    \<and> (0 \<le> backoffSpread t \<longrightarrow>
          backoffExp t - backoffSpread t - 1 / 2 \<le> real_of_int (fst (nextBackoffDelay rnd t))
        \<and> real_of_int (fst (nextBackoffDelay rnd t)) \<le> backoffExp t + backoffSpread t + 1 / 2)
    \<and> (backoffSpread t = 0 \<and> backoffExp t \<in> \<int> \<longrightarrow> real_of_int (fst (nextBackoffDelay rnd t)) = backoffExp t))
   \<and> backoffExp t = min (maxDelayMs (reconnectConfig t)) (baseDelayMs (reconnectConfig t) * 2 ^ retryAttempt t)
   \<and> backoffSpread t = backoffExp t * jitter (reconnectConfig t)
   \<and> retryAttempt (snd (sse_step now e t)) =
        (if e = SourceOpen then 0 else if schedules e t then retryAttempt t + 1 else retryAttempt t)
   \<and> length (timeouts (snd (sse_step now e t))) = length (timeouts t) + (if schedules e t then 1 else 0)
   \<and> timeouts (snd (sse_run [(n0, Connect), (n1, SourceError r1), (n2, SourceError r2), (n3, SourceError r3)]
        test_transport)) = [100, 200, 400]"
proof -
  have a: "fst (nextBackoffDelay rnd t) = round (backoffExp t - backoffSpread t + rnd * backoffSpread t * 2)"
    by (simp add: nextBackoffDelay_eq)
  have b: "0 \<le> rnd \<Longrightarrow> rnd < 1 \<Longrightarrow> 0 \<le> backoffSpread t \<Longrightarrow>
          backoffExp t - backoffSpread t - 1 / 2 \<le> real_of_int (fst (nextBackoffDelay rnd t))
        \<and> real_of_int (fst (nextBackoffDelay rnd t)) \<le> backoffExp t + backoffSpread t + 1 / 2"
    unfolding a by (rule round_bounds)
  have c: "backoffSpread t = 0 \<Longrightarrow> backoffExp t \<in> \<int> \<Longrightarrow> real_of_int (fst (nextBackoffDelay rnd t)) = backoffExp t"
    unfolding a by (auto elim!: Ints_cases)
  have d: "length (timeouts (snd (sse_step now e t))) = length (timeouts t) + (if schedules e t then 1 else 0)"
    by (simp add: sse_step_timeouts split: SseEvent.splits)
  show ?thesis
    using a b c d sse_step_retryAttempt[of now e t] test_scenario[of n0 n1 r1 n2 r2 n3 r3]
    by (simp add: backoffExp_def backoffSpread_def)
qed

theorem backoff_delay_and_attempt_counter_witness:
  "fst (nextBackoffDelay (1 / 2) odd_transport) = 103
   \<and> real_of_int (fst (nextBackoffDelay (1 / 2) odd_transport)) \<le> 103 + 103 / 4 + 1 / 2
   \<and> retryAttempt (snd (sse_step 0 (SourceError 0) odd_transport)) = 1
   \<and> length (timeouts (snd (sse_step 0 (SourceError 0) odd_transport))) = 1
   \<and> fst (nextBackoffDelay (1 / 2) test_transport) = 100"
  using backoff_delay_and_attempt_counter[of "1 / 2" odd_transport 0 "SourceError 0" 0 0 0 0 0 0 0]
    backoff_delay_and_attempt_counter[of "1 / 2" test_transport 0 "SourceError 0" 0 0 0 0 0 0 0]
  by (simp add: backoffExp_def backoffSpread_def odd_transport_def test_transport_def newSseTransport_def
      mergeBackoff_def defaultBackoff_def)

text \<open>
  As C5 is written, the delay lies between \<open>exp - spread\<close> and \<open>exp + spread\<close>. With a base
  of 103 ms and the default jitter of a quarter, \<^verbatim>\<open>Math.random()\<close> giving 0 makes the delay
  77 ms, below \<open>exp - spread = 77.25\<close>: the rounded number is not clamped.
\<close>

theorem backoff_rounding_counterexample:
  "fst (nextBackoffDelay 0 odd_transport) = 77
   \<and> backoffExp odd_transport - backoffSpread odd_transport = 309 / 4
   \<and> real_of_int (fst (nextBackoffDelay 0 odd_transport)) < backoffExp odd_transport - backoffSpread odd_transport"
  by (simp add: nextBackoffDelay_eq backoffExp_def backoffSpread_def odd_transport_def newSseTransport_def
      mergeBackoff_def defaultBackoff_def round_def)

text \<open>
  C6. The id of a request is computed from the clock and the random number alone: two ids
  are equal exactly when \<^verbatim>\<open>Date.now()\<close> is the same and the characters 2 to 9 of the printed
  random number are the same. A request whose id is not a key of the map adds its entry
  after the entries that are there and leaves them as they are; a request whose id is a
  key of the map replaces the entry under this key.
\<close>

theorem request_id_collisions:
  "(generateId now rnd = generateId now' rnd' \<longleftrightarrow> now = now' \<and> take 8 (drop 2 rnd) = take 8 (drop 2 rnd'))
   \<and> (generateId now rnd \<notin> fst ` set (pending c) \<longrightarrow>
        pending (snd (snd (request now rnd mth params c))) =
          pending c @ [(generateId now rnd, \<lparr>resolve = nextPromise c, reject = nextPromise c, timeoutId = nextTimer c\<rparr>)])
   \<and> (generateId now rnd \<in> fst ` set (pending c) \<longrightarrow>
        length (pending (snd (snd (request now rnd mth params c)))) = length (pending c)
        \<and> map_of (pending (snd (snd (request now rnd mth params c)))) (generateId now rnd) =
            Some \<lparr>resolve = nextPromise c, reject = nextPromise c, timeoutId = nextTimer c\<rparr>)"
  using generateId_eq_iff[of now rnd now' rnd']
  by (simp add: request_eq update_fresh update_present_length update_conv')

theorem request_id_collisions_witness:
  "pending (snd (snd (request 1 ''0.abc'' ''mcp.listTools'' None demo_client))) =
     [(''0-abc'', \<lparr>resolve = 0, reject = 0, timeoutId = 0\<rparr>),
      (''1-abc'', \<lparr>resolve = 1, reject = 1, timeoutId = 1\<rparr>)]
   \<and> length (pending (snd (snd (request 0 ''0.abc'' ''mcp.listTools'' None demo_client)))) = 1
   \<and> generateId 0 ''0.abc'' \<noteq> generateId 1 ''0.abc''"
  using request_id_collisions[of 1 "''0.abc''" 0 "''0.abc''" demo_client "''mcp.listTools''" None]
    request_id_collisions[of 0 "''0.abc''" 1 "''0.abc''" demo_client "''mcp.listTools''" None]
  by (simp add: demo_client_fields generateId_demo generateId_def toString_radix.simps[of 36 "Suc 0"]
      toString_radix.simps[of 36 0] digit_char_def)

text \<open>
  As C6 is written, a new id differs from the id of every pending request. A second
  request in the same millisecond whose random number prints the same characters gets the
  id of the first, and its entry replaces the entry of the first.
\<close>

theorem request_id_collision_counterexample:
  "generateId 0 ''0.abc'' \<in> fst ` set (pending demo_client)
   \<and> pending demo_client = [(''0-abc'', \<lparr>resolve = 0, reject = 0, timeoutId = 0\<rparr>)]
   \<and> pending (snd (snd (request 0 ''0.abc'' ''mcp.listTools'' None demo_client)))
       = [(''0-abc'', \<lparr>resolve = 1, reject = 1, timeoutId = 1\<rparr>)]"
  by (simp add: request_eq demo_client_fields generateId_demo)

text \<open>
  C7. After \<^verbatim>\<open>disconnect\<close> of the transport the manual-close flag is set, no timer is set and
  the field of the reconnect timer is empty, and the status is \<^verbatim>\<open>disconnected\<close>. After any
  events that follow, as long as \<^verbatim>\<open>connect\<close> is not among them, the flag is still set, no
  timer is set and \<^verbatim>\<open>setTimeout\<close> has not been called again, and an error of the event source
  emits nothing and changes nothing.
\<close>

theorem disconnect_suppresses_reconnect:
  assumes "sse_inv t" and "\<forall>(n, e) \<in> set es. e \<noteq> Connect"
  shows "manualClose (snd (disconnect t)) \<and> live (snd (disconnect t)) = {}
       \<and> reconnectTimer (snd (disconnect t)) = None \<and> status (snd (disconnect t)) = Disconnected
       \<and> manualClose (snd (sse_run es (snd (disconnect t))))
       \<and> live (snd (sse_run es (snd (disconnect t)))) = {}
       \<and> timeouts (snd (sse_run es (snd (disconnect t)))) = timeouts t
       \<and> sse_step now (SourceError rnd) (snd (sse_run es (snd (disconnect t))))
            = ([], snd (sse_run es (snd (disconnect t))))"
proof -
  from assms(1) have "sse_inv (t\<lparr>manualClose := True\<rparr>)" by (simp add: sse_inv_def)
  from clearReconnectTimer_live_inv[OF this]
  have d: "manualClose (snd (disconnect t))" "live (snd (disconnect t)) = {}"
    "reconnectTimer (snd (disconnect t)) = None" "status (snd (disconnect t)) = Disconnected"
    "timeouts (snd (disconnect t)) = timeouts t"
    by (simp_all add: disconnect_def sseSetStatus_def)
  from closed_run[OF d(1,2) assms(2)] d show ?thesis
    by (simp add: onerror_def)
qed

theorem disconnect_suppresses_reconnect_witness:
  "manualClose (snd (disconnect (snd (sse_step 1 (SourceError 0) test_transport))))
   \<and> live (snd (disconnect (snd (sse_step 1 (SourceError 0) test_transport)))) = {}
   \<and> sse_step 4 (SourceError 0)
        (snd (sse_run [(2, SourceOpen), (3, ReconnectFired 0)]
           (snd (disconnect (snd (sse_step 1 (SourceError 0) test_transport))))))
      = ([], snd (sse_run [(2, SourceOpen), (3, ReconnectFired 0)]
           (snd (disconnect (snd (sse_step 1 (SourceError 0) test_transport))))))"
  using disconnect_suppresses_reconnect[of "snd (sse_step 1 (SourceError 0) test_transport)"
      "[(2, SourceOpen), (3, ReconnectFired 0)]" 4 0]
    sse_inv_step[OF sse_inv_new, of 1 "SourceError 0" None None
      "Some \<lparr>opt_baseDelayMs = Some 100, opt_maxDelayMs = Some 1000, opt_jitter = Some 0\<rparr>"]
  by (simp add: test_transport_def del: sse_step.simps sse_run.simps)








end
